theory Spec2Isabelle
  imports Main "HOL-Library.Word"
begin

unbundle bit_operations_syntax

section \<open>Data model\<close>

text \<open>
  Go's \<open>byte\<close> is an unsigned 8-bit integer and \<open>int32\<close>/\<open>uint32\<close> are 32-bit
  integers; all arithmetic on them wraps around. The conversions \<open>uint32(value)\<close> and
  \<open>int32(u)\<close> keep the bit pattern, so both types are the same 32-bit word here; \<open>sint\<close>
  reads it as the signed \<open>int32\<close>, \<open>unat\<close>/\<open>uint\<close> as the unsigned \<open>uint32\<close>.
\<close>

type_synonym byte = "8 word"
type_synonym int32 = "32 word"
type_synonym uint32 = "32 word"

text \<open>
  The error values of the package. The six package-level variables of \<open>var ( ... )\<close> are
  one constructor each; \<open>errorPortNotOpen\<close> is \<open>errors.New("port not open")\<close>,
  \<open>errorBoardCode code\<close> is \<open>fmt.Errorf("board returned error code %d", code)\<close>, and
  \<open>errorIO e\<close> is an error \<open>e\<close> of the transport, which \<open>Exec\<close> returns as it is.
  Go's \<open>nil\<close> error is \<open>None\<close>. \<open>errors.New\<close> and \<open>fmt.Errorf\<close> allocate a new error
  value at every call; the model keeps what the value says (its message, and the code in
  it), not its address.
\<close>

datatype 'e error =
    errorPortNotOpen
  | errorWrongChecksum
  | errorInvalidCommand
  | errorWrongType
  | errorInvalidType
  | errorConfigurationEEPROMLocked
  | errorCommandNotAvailable
  | errorBoardCode byte
  | errorIO 'e

text \<open>
  The \<open>Logger\<close> interface: two methods, here acting on the logger's own state \<open>'l\<close>.
\<close>

record 'l Logger =
  LogSend :: "byte list \<Rightarrow> byte \<Rightarrow> byte \<Rightarrow> byte \<Rightarrow> int32 \<Rightarrow> 'l \<Rightarrow> 'l"
  LogRecv :: "byte list \<Rightarrow> int32 \<Rightarrow> 'l \<Rightarrow> 'l"

definition NoopLogger :: "'l Logger" where
  "NoopLogger = \<lparr>LogSend = (\<lambda>raw cmd index bank val s. s), LogRecv = (\<lambda>raw val s. s)\<rparr>"

text \<open>
  \<open>DefaultLogger\<close> prints one line per call to standard output. Its state is the list of
  lines printed so far, each line kept as the arguments of its \<open>Printf\<close>.
\<close>

datatype log_line =
    SendLine "byte list" byte byte byte int32
  | RecvLine "byte list" int32

definition DefaultLogger :: "log_line list Logger" where
  "DefaultLogger =
     \<lparr>LogSend = (\<lambda>raw cmd index bank val out. out @ [SendLine raw cmd index bank val]),
      LogRecv = (\<lambda>raw val out. out @ [RecvLine raw val])\<rparr>"

text \<open>
  The transport \<open>io.ReadWriter\<close>, with state \<open>'p\<close> and errors \<open>'e\<close>. \<open>Exec\<close> uses it
  through two calls only: \<open>Write(buf)\<close>, of which it keeps the error and drops the count,
  and the standard library's \<open>io.ReadFull(port, buf)\<close>, which either fills the whole buffer
  of the given length and returns no error, or returns an error. Both are taken as given.
\<close>

record ('p, 'e) ReadWriter =
  Write :: "byte list \<Rightarrow> 'p \<Rightarrow> 'e option \<times> 'p"
  ReadFull :: "nat \<Rightarrow> 'p \<Rightarrow> ('e + byte list) \<times> 'p"

text \<open>
  The \<open>TMCL\<close> struct. An interface value is its method table together with the state of
  the object behind it; a \<open>nil\<close> port is \<open>None\<close>. The mutex field is left out: the model
  is sequential, one call of \<open>Exec\<close> runs from entry to return.
\<close>

record ('p, 'e, 'l) TMCL =
  port :: "(('p, 'e) ReadWriter \<times> 'p) option"
  log :: "'l Logger \<times> 'l"

section \<open>Operations\<close>

text \<open>\<open>calcChecksum\<close>: \<open>var x byte; for _, b := range bts { x += b }; return x\<close>.\<close>

definition calcChecksum :: "byte list \<Rightarrow> byte" where
  "calcChecksum bts = foldl (\<lambda>x b. x + b) 0 bts"

text \<open>
  \<open>binary.BigEndian.PutUint32(b, v)\<close> and \<open>binary.BigEndian.Uint32(b)\<close> of Go's
  \<open>encoding/binary\<close>, on the slice \<open>buf[off:off+4]\<close> of a buffer:
  \<open>b[0] = byte(v >> 24); b[1] = byte(v >> 16); b[2] = byte(v >> 8); b[3] = byte(v)\<close> and
  \<open>uint32(b[3]) | uint32(b[2])<<8 | uint32(b[1])<<16 | uint32(b[0])<<24\<close>.
\<close>

definition PutUint32 :: "byte list \<Rightarrow> nat \<Rightarrow> uint32 \<Rightarrow> byte list" where
  "PutUint32 buf off v =
     buf[off := ucast (drop_bit 24 v),
         off + 1 := ucast (drop_bit 16 v),
         off + 2 := ucast (drop_bit 8 v),
         off + 3 := ucast v]"

definition Uint32 :: "byte list \<Rightarrow> nat \<Rightarrow> uint32" where
  "Uint32 buf off =
     ucast (buf ! (off + 3))
     OR push_bit 8 (ucast (buf ! (off + 2)))
     OR push_bit 16 (ucast (buf ! (off + 1)))
     OR push_bit 24 (ucast (buf ! off))"

text \<open>\<open>getError\<close>, the \<open>switch\<close> in the order of the source.\<close>

definition getError :: "byte \<Rightarrow> 'e error option" where
  "getError code =
     (if code = 100 \<or> code = 101 then None
      else if code = 1 then Some errorWrongChecksum
      else if code = 2 then Some errorInvalidCommand
      else if code = 3 then Some errorWrongType
      else if code = 4 then Some errorInvalidType
      else if code = 5 then Some errorConfigurationEEPROMLocked
      else if code = 6 then Some errorCommandNotAvailable
      else Some (errorBoardCode code))"

text \<open>
  \<open>Exec\<close>. The result is the pair \<open>(int32, error)\<close> of the source and the \<open>TMCL\<close> object
  after the call. \<open>tx\<close> and \<open>resp\<close> are the two \<open>[9]byte\<close> arrays; \<open>tx\<close> starts zeroed.
\<close>

definition Exec ::
  "('p, 'e, 'l) TMCL \<Rightarrow> byte \<Rightarrow> byte \<Rightarrow> byte \<Rightarrow> int32
     \<Rightarrow> (int32 \<times> 'e error option) \<times> ('p, 'e, 'l) TMCL" where
  "Exec q cmd typeNo motorOrBank val =
     (case port q of
        None \<Rightarrow> ((0, Some errorPortNotOpen), q)
      | Some (rw, p) \<Rightarrow>
          let tx0 = (replicate 9 0)[0 := 2, 1 := cmd, 2 := typeNo, 3 := motorOrBank];
              tx1 = PutUint32 tx0 4 val;
              tx = tx1[8 := calcChecksum (take 8 tx1)]
          in (case Write rw tx p of
                (Some err, p1) \<Rightarrow> ((0, Some (errorIO err)), q\<lparr>port := Some (rw, p1)\<rparr>)
              | (None, p1) \<Rightarrow>
                  (case ReadFull rw 9 p1 of
                     (Inl err, p2) \<Rightarrow> ((0, Some (errorIO err)), q\<lparr>port := Some (rw, p2)\<rparr>)
                   | (Inr resp, p2) \<Rightarrow>
                       let returnValue = Uint32 resp 4
                       in if resp ! 8 \<noteq> calcChecksum (take 8 resp)
                          then ((0, Some errorWrongChecksum), q\<lparr>port := Some (rw, p2)\<rparr>)
                          else if resp ! 2 < 100
                          then ((0, getError (resp ! 2)), q\<lparr>port := Some (rw, p2)\<rparr>)
                          else ((returnValue, None), q\<lparr>port := Some (rw, p2)\<rparr>))))"

section \<open>Test transports\<close>

text \<open>
  \<open>cannedPort resp\<close> is a board that accepts every frame and answers \<open>resp\<close>.
  \<open>spy rw\<close> wraps a transport and records, in order, every call made on it.
\<close>

definition cannedPort :: "byte list \<Rightarrow> (unit, unit) ReadWriter" where
  "cannedPort resp = \<lparr>Write = (\<lambda>bs p. (None, p)), ReadFull = (\<lambda>n p. (Inr resp, p))\<rparr>"

datatype io_event = Wrote "byte list" | ReadFullCalled nat

definition spy :: "('p, 'e) ReadWriter \<Rightarrow> ('p \<times> io_event list, 'e) ReadWriter" where
  "spy rw =
     \<lparr>Write = (\<lambda>bs (p, evs). case Write rw bs p of (r, p') \<Rightarrow> (r, (p', evs @ [Wrote bs]))),
      ReadFull = (\<lambda>n (p, evs). case ReadFull rw n p of (r, p') \<Rightarrow> (r, (p', evs @ [ReadFullCalled n])))\<rparr>"

section \<open>Checksum and value encoding\<close>

lemma unat_byte_lt: "unat (a :: byte) < 256"
  using unsigned_less [of a, where ?'a = nat] by simp

lemma foldl_add_sum_list: "foldl (\<lambda>x b. x + b) (a :: byte) bts = a + sum_list bts"
  by (induction bts arbitrary: a) (simp_all add: add.assoc)

lemma calcChecksum_sum_list: "calcChecksum bts = sum_list bts"
  by (simp add: calcChecksum_def foldl_add_sum_list)

lemma unat_sum_list_byte:
  "unat (sum_list (bts :: byte list)) = sum_list (map unat bts) mod 256"
proof (induction bts)
  case Nil
  show ?case by simp
next
  case (Cons b bts)
  have "unat (b + sum_list bts) = (unat b + unat (sum_list bts)) mod 256"
    by (simp add: unat_word_ariths)
  then show ?case
    by (simp add: Cons.IH mod_add_right_eq)
qed

lemma unat_calcChecksum:
  "unat (calcChecksum bts) = sum_list (map unat bts) mod 256"
  by (simp add: calcChecksum_sum_list unat_sum_list_byte)

lemma checksum_test_iff:
  "(b = calcChecksum bts) \<longleftrightarrow> (unat b = sum_list (map unat bts) mod 256)"
  using unat_calcChecksum [of bts] by (metis unsigned_word_eqI)


lemma bytes_to_word:
  "(ucast (ucast v :: byte) OR
    push_bit 8 (ucast (ucast (drop_bit 8 v) :: byte)) OR
    push_bit 16 (ucast (ucast (drop_bit 16 v) :: byte)) OR
    push_bit 24 (ucast (ucast (drop_bit 24 v) :: byte)) :: 32 word) = v"
proof (rule bit_word_eqI)
  fix n :: nat
  assume "n < LENGTH(32)"
  then consider "n < 8" | "8 \<le> n" "n < 16" | "16 \<le> n" "n < 24" | "24 \<le> n" "n < 32"
    by fastforce
  then show "bit (ucast (ucast v :: byte) OR
           push_bit 8 (ucast (ucast (drop_bit 8 v) :: byte)) OR
           push_bit 16 (ucast (ucast (drop_bit 16 v) :: byte)) OR
           push_bit 24 (ucast (ucast (drop_bit 24 v) :: byte)) :: 32 word) n = bit v n"
  proof cases
    case 1
    then show ?thesis by (simp add: bit_simps)
  next
    case 2
    then show ?thesis by (auto simp add: bit_simps)
  next
    case 3
    then show ?thesis by (auto simp add: bit_simps)
  next
    case 4
    then show ?thesis by (auto simp add: bit_simps)
  qed
qed

lemma Uint32_PutUint32:
  "off + 3 < length buf \<Longrightarrow> Uint32 (PutUint32 buf off v) off = v"
  by (simp add: Uint32_def PutUint32_def bytes_to_word)

lemma uint_byte_of_int32:
  "k \<le> 24 \<Longrightarrow> uint (ucast (drop_bit k (v :: int32)) :: byte) = (sint v div 2 ^ k) mod 256"
proof -
  assume k: "k \<le> 24"
  have "uint (ucast (drop_bit k v) :: byte) = take_bit 8 (uint (drop_bit k v))"
    by (simp add: unsigned_ucast_eq)
  also have "\<dots> = take_bit 8 (drop_bit k (take_bit 32 (uint v)))"
    by (simp add: unsigned_drop_bit_eq)
  also have "\<dots> = take_bit 8 (drop_bit k (take_bit 32 (sint v)))"
    using uint_sint [of v] by simp
  also have "\<dots> = take_bit 8 (drop_bit k (sint v))"
  proof -
    have "min 8 (32 - k) = 8" using k by simp
    then show ?thesis by (simp add: drop_bit_take_bit)
  qed
  finally show ?thesis
    by (simp add: take_bit_eq_mod drop_bit_eq_div)
qed

section \<open>The frame written and the reply read\<close>

lemma byte_eqI_uint: "uint (a :: byte) = uint (b :: byte) \<Longrightarrow> a = b"
  by (rule word_uint_eqI)


lemma tx_frame:
  "(PutUint32 ((replicate 9 0)[0 := 2, 1 := cmd, 2 := typeNo, 3 := motorOrBank]) 4 val)
     [8 := calcChecksum (take 8 (PutUint32 ((replicate 9 0)[0 := 2, 1 := cmd, 2 := typeNo, 3 := motorOrBank]) 4 val))]
   = [2, cmd, typeNo, motorOrBank,
      ucast (drop_bit 24 val), ucast (drop_bit 16 val), ucast (drop_bit 8 val), ucast val,
      calcChecksum [2, cmd, typeNo, motorOrBank,
        ucast (drop_bit 24 val), ucast (drop_bit 16 val), ucast (drop_bit 8 val), ucast val]]"
  by (simp add: PutUint32_def numeral_eq_Suc)

lemma Exec_on_reply:
  assumes "port q = Some (rw, p)"
    and "Write rw [2, cmd, typeNo, motorOrBank,
                   ucast (drop_bit 24 val), ucast (drop_bit 16 val), ucast (drop_bit 8 val), ucast val,
                   calcChecksum [2, cmd, typeNo, motorOrBank,
                     ucast (drop_bit 24 val), ucast (drop_bit 16 val), ucast (drop_bit 8 val), ucast val]] p
           = (None, p1)"
    and "ReadFull rw 9 p1 = (Inr resp, p2)"
  shows "fst (Exec q cmd typeNo motorOrBank val) =
           (if resp ! 8 \<noteq> calcChecksum (take 8 resp) then (0, Some errorWrongChecksum)
            else if resp ! 2 < 100 then (0, getError (resp ! 2))
            else (Uint32 resp 4, None))"
  using assms unfolding Exec_def Let_def tx_frame by simp

lemma Exec_spy_events:
  "\<exists>p' rest.
     port (snd (Exec \<lparr>port = Some (spy rw, (p, [])), log = l\<rparr> cmd typeNo motorOrBank val))
       = Some (spy rw, (p',
           Wrote [2, cmd, typeNo, motorOrBank,
                  ucast (drop_bit 24 val), ucast (drop_bit 16 val), ucast (drop_bit 8 val), ucast val,
                  calcChecksum [2, cmd, typeNo, motorOrBank,
                    ucast (drop_bit 24 val), ucast (drop_bit 16 val), ucast (drop_bit 8 val), ucast val]]
           # rest))
     \<and> (rest = [] \<or> rest = [ReadFullCalled 9])"
  unfolding Exec_def Let_def tx_frame
  by (simp add: spy_def split: prod.splits option.splits sum.splits)

lemma Exec_log_unchanged:
  "log (snd (Exec q cmd typeNo motorOrBank val)) = log q"
  by (simp add: Exec_def Let_def split: prod.splits option.splits sum.splits)

section \<open>Status classification\<close>

text \<open>
  C1, as the code has it. For a 9-byte reply with a valid checksum the error of \<open>Exec\<close> is
  decided by the status byte \<open>resp[2]\<close> alone: every status from 100 to 255 is a success
  (\<open>nil\<close>), 1 to 6 are the six named errors, and every other status below 100 (0 and
  7 to 99) is "board returned error code", which keeps the raw code. The guard
  \<open>resp[2] < 100\<close> of \<open>Exec\<close> lets a status from 102 to 255 through as a success, so
  \<open>getError\<close> is never asked about it.
\<close>

theorem Exec_status_classification:
  assumes "port q = Some (rw, p)"
    and "Write rw [2, cmd, typeNo, motorOrBank,
                   ucast (drop_bit 24 val), ucast (drop_bit 16 val), ucast (drop_bit 8 val), ucast val,
                   calcChecksum [2, cmd, typeNo, motorOrBank,
                     ucast (drop_bit 24 val), ucast (drop_bit 16 val), ucast (drop_bit 8 val), ucast val]] p
           = (None, p1)"
    and "ReadFull rw 9 p1 = (Inr resp, p2)"
    and "length resp = 9"
    and "unat (resp ! 8) = sum_list (map unat (take 8 resp)) mod 256"
  shows "snd (fst (Exec q cmd typeNo motorOrBank val)) =
           (if 100 \<le> resp ! 2 then None
            else if resp ! 2 = 1 then Some errorWrongChecksum
            else if resp ! 2 = 2 then Some errorInvalidCommand
            else if resp ! 2 = 3 then Some errorWrongType
            else if resp ! 2 = 4 then Some errorInvalidType
            else if resp ! 2 = 5 then Some errorConfigurationEEPROMLocked
            else if resp ! 2 = 6 then Some errorCommandNotAvailable
            else Some (errorBoardCode (resp ! 2)))"
proof -
  have ok: "resp ! 8 = calcChecksum (take 8 resp)"
    using assms(5) by (simp add: checksum_test_iff)
  show ?thesis
  proof (cases "resp ! 2 < 100")
    case True
    then have "resp ! 2 \<noteq> 100" and "resp ! 2 \<noteq> 101" and "\<not> 100 \<le> resp ! 2"
      by auto
    with True ok show ?thesis
      by (simp add: Exec_on_reply [OF assms(1-3)] getError_def)
  next
    case False
    then have "100 \<le> resp ! 2" by simp
    with False ok show ?thesis
      by (simp add: Exec_on_reply [OF assms(1-3)])
  qed
qed

theorem Exec_status_classification_witness:
  "snd (fst (Exec \<lparr>port = Some (cannedPort [2, 1, 7, 6, 0, 0, 0, 0, 16], ()),
                   log = (NoopLogger :: unit Logger, ())\<rparr> 6 0 0 0))
     = Some (errorBoardCode 7)"
proof -
  let ?resp = "[2, 1, 7, 6, 0, 0, 0, 0, 16] :: byte list"
  let ?q = "\<lparr>port = Some (cannedPort ?resp, ()), log = (NoopLogger :: unit Logger, ())\<rparr>"
  have h1: "port ?q = Some (cannedPort ?resp, ())" by simp
  have h2: "\<And>bs. Write (cannedPort ?resp) bs () = (None, ())"
    by (simp add: cannedPort_def)
  have h3: "ReadFull (cannedPort ?resp) 9 () = (Inr ?resp, ())"
    by (simp add: cannedPort_def)
  have h4: "length ?resp = 9" by simp
  have h5: "unat (?resp ! 8) = sum_list (map unat (take 8 ?resp)) mod 256" by simp
  show ?thesis
    using Exec_status_classification
            [where cmd = 6 and typeNo = 0 and motorOrBank = 0 and val = 0, OF h1 h2 h3 h4 h5]
    by simp
qed

text \<open>
  A reply with status 102, value 7 and a valid checksum is a success with value 7, not an
  unknown-status error.
\<close>

theorem Exec_status_102_counterexample:
  "fst (Exec \<lparr>port = Some (cannedPort [2, 1, 102, 6, 0, 0, 0, 7, 118], ()),
              log = (NoopLogger :: unit Logger, ())\<rparr> 6 0 0 0) = (7, None)
   \<and> snd (fst (Exec \<lparr>port = Some (cannedPort [2, 1, 102, 6, 0, 0, 0, 7, 118], ()),
              log = (NoopLogger :: unit Logger, ())\<rparr> 6 0 0 0)) \<noteq> Some (errorBoardCode 102)"
  by (simp add: Exec_def Let_def cannedPort_def calcChecksum_def PutUint32_def Uint32_def)

section \<open>The logger\<close>

text \<open>
  C2. The send and receive hooks of the logger are not called: \<open>Exec\<close> has no call of
  \<open>q.log\<close>. With a \<open>DefaultLogger\<close> that has printed nothing, the exchange
  \<open>Exec(1, 0, 1, 500)\<close> against a board answering \<open>02 01 64 01 00 00 01 F4 5D\<close>
  succeeds with 500 and nothing has been printed after it, where one \<open>SendLine\<close> and one
  \<open>RecvLine\<close> were to be expected.
\<close>

theorem Exec_DefaultLogger_prints_nothing:
  "fst (Exec \<lparr>port = Some (cannedPort [2, 1, 100, 1, 0, 0, 1, 244, 93], ()),
              log = (DefaultLogger, [])\<rparr> 1 0 1 500) = (500, None)
   \<and> snd (log (snd (Exec \<lparr>port = Some (cannedPort [2, 1, 100, 1, 0, 0, 1, 244, 93], ()),
              log = (DefaultLogger, [])\<rparr> 1 0 1 500))) = []"
  by (simp add: Exec_def Let_def cannedPort_def calcChecksum_def PutUint32_def Uint32_def)

section \<open>The frame sent\<close>

text \<open>
  C3. On any attached transport, here watched through \<open>spy\<close>, the first call \<open>Exec\<close>
  makes is one \<open>Write\<close> of the 9 bytes \<open>[2, cmd, typeNo, motorOrBank, b4, b5, b6, b7, ck]\<close>,
  where \<open>b4 .. b7\<close> are the bytes of the two's complement of the signed value, most
  significant first, and \<open>ck\<close> is the sum of the eight bytes before it modulo 256; no
  other write follows. \<open>Exec(1, 0, 1, 500)\<close> writes \<open>02 01 00 01 00 00 01 F4 F9\<close>.
\<close>

theorem Exec_writes_frame:
  "(\<exists>b4 b5 b6 b7 ck p' rest.
      port (snd (Exec \<lparr>port = Some (spy rw, (p, [])), log = l\<rparr> cmd typeNo motorOrBank val))
        = Some (spy rw, (p', Wrote [2, cmd, typeNo, motorOrBank, b4, b5, b6, b7, ck] # rest))
      \<and> uint b4 = (sint val div 2 ^ 24) mod 256
      \<and> uint b5 = (sint val div 2 ^ 16) mod 256
      \<and> uint b6 = (sint val div 2 ^ 8) mod 256
      \<and> uint b7 = sint val mod 256
      \<and> unat ck = (2 + unat cmd + unat typeNo + unat motorOrBank
                     + unat b4 + unat b5 + unat b6 + unat b7) mod 256
      \<and> (rest = [] \<or> rest = [ReadFullCalled 9]))
   \<and> (\<exists>p' rest.
      port (snd (Exec \<lparr>port = Some (spy rw, (p, [])), log = l\<rparr> 1 0 1 500))
        = Some (spy rw, (p', Wrote [0x02, 0x01, 0x00, 0x01, 0x00, 0x00, 0x01, 0xF4, 0xF9] # rest)))"
proof
  obtain p' rest where e:
    "port (snd (Exec \<lparr>port = Some (spy rw, (p, [])), log = l\<rparr> cmd typeNo motorOrBank val))
       = Some (spy rw, (p',
           Wrote [2, cmd, typeNo, motorOrBank,
                  ucast (drop_bit 24 val), ucast (drop_bit 16 val), ucast (drop_bit 8 val), ucast val,
                  calcChecksum [2, cmd, typeNo, motorOrBank,
                    ucast (drop_bit 24 val), ucast (drop_bit 16 val), ucast (drop_bit 8 val), ucast val]]
           # rest))"
    and r: "rest = [] \<or> rest = [ReadFullCalled 9]"
    using Exec_spy_events [of rw p l cmd typeNo motorOrBank val] by blast
  have b7: "uint (ucast val :: byte) = sint val mod 256"
    using uint_byte_of_int32 [of 0 val] by simp
  show "\<exists>b4 b5 b6 b7 ck p' rest.
      port (snd (Exec \<lparr>port = Some (spy rw, (p, [])), log = l\<rparr> cmd typeNo motorOrBank val))
        = Some (spy rw, (p', Wrote [2, cmd, typeNo, motorOrBank, b4, b5, b6, b7, ck] # rest))
      \<and> uint b4 = (sint val div 2 ^ 24) mod 256
      \<and> uint b5 = (sint val div 2 ^ 16) mod 256
      \<and> uint b6 = (sint val div 2 ^ 8) mod 256
      \<and> uint b7 = sint val mod 256
      \<and> unat ck = (2 + unat cmd + unat typeNo + unat motorOrBank
                     + unat b4 + unat b5 + unat b6 + unat b7) mod 256
      \<and> (rest = [] \<or> rest = [ReadFullCalled 9])"
    using e r b7
    by (intro exI conjI) (assumption, simp_all add: uint_byte_of_int32 unat_calcChecksum add.assoc)
next
  show "\<exists>p' rest.
      port (snd (Exec \<lparr>port = Some (spy rw, (p, [])), log = l\<rparr> 1 0 1 500))
        = Some (spy rw, (p', Wrote [0x02, 0x01, 0x00, 0x01, 0x00, 0x00, 0x01, 0xF4, 0xF9] # rest))"
    using Exec_spy_events [of rw p l 1 0 1 500]
    by (auto simp add: calcChecksum_def)
qed

section \<open>The checksum of the reply\<close>




text \<open>
  C5. A 9-byte reply whose last byte is not the sum of its first eight modulo 256 makes
  \<open>Exec\<close> return \<open>(0, "wrong checksum")\<close>, whatever its status byte is. Whenever \<open>Exec\<close>
  returns anything else, the checksum was valid and the result is the one the status byte
  decides. In the witness the same corrupt frame is rejected with status 100 and with
  status 5.
\<close>

theorem Exec_checksum_before_status:
  assumes "port q = Some (rw, p)"
    and "Write rw [2, cmd, typeNo, motorOrBank,
                   ucast (drop_bit 24 val), ucast (drop_bit 16 val), ucast (drop_bit 8 val), ucast val,
                   calcChecksum [2, cmd, typeNo, motorOrBank,
                     ucast (drop_bit 24 val), ucast (drop_bit 16 val), ucast (drop_bit 8 val), ucast val]] p
           = (None, p1)"
    and "ReadFull rw 9 p1 = (Inr resp, p2)"
    and "length resp = 9"
  shows "(unat (resp ! 8) \<noteq> sum_list (map unat (take 8 resp)) mod 256
            \<longrightarrow> fst (Exec q cmd typeNo motorOrBank val) = (0, Some errorWrongChecksum))
       \<and> (fst (Exec q cmd typeNo motorOrBank val) \<noteq> (0, Some errorWrongChecksum)
            \<longrightarrow> unat (resp ! 8) = sum_list (map unat (take 8 resp)) mod 256
              \<and> fst (Exec q cmd typeNo motorOrBank val)
                  = (if resp ! 2 < 100 then (0, getError (resp ! 2)) else (Uint32 resp 4, None)))"
  by (simp add: Exec_on_reply [OF assms(1-3)] checksum_test_iff)

theorem Exec_checksum_before_status_witness:
  "fst (Exec \<lparr>port = Some (cannedPort [2, 1, 100, 6, 0, 0, 0, 9, 0], ()),
              log = (NoopLogger :: unit Logger, ())\<rparr> 6 0 0 0) = (0, Some errorWrongChecksum)
   \<and> fst (Exec \<lparr>port = Some (cannedPort [2, 1, 5, 6, 0, 0, 0, 9, 0], ()),
              log = (NoopLogger :: unit Logger, ())\<rparr> 6 0 0 0) = (0, Some errorWrongChecksum)"
proof -
  let ?r1 = "[2, 1, 100, 6, 0, 0, 0, 9, 0] :: byte list"
  let ?r2 = "[2, 1, 5, 6, 0, 0, 0, 9, 0] :: byte list"
  let ?q1 = "\<lparr>port = Some (cannedPort ?r1, ()), log = (NoopLogger :: unit Logger, ())\<rparr>"
  let ?q2 = "\<lparr>port = Some (cannedPort ?r2, ()), log = (NoopLogger :: unit Logger, ())\<rparr>"
  have p1: "port ?q1 = Some (cannedPort ?r1, ())" and p2: "port ?q2 = Some (cannedPort ?r2, ())"
    by simp_all
  have w: "\<And>r bs. Write (cannedPort r) bs () = (None, ())"
    by (simp add: cannedPort_def)
  have r: "\<And>r. ReadFull (cannedPort r) 9 () = (Inr r, ())"
    by (simp add: cannedPort_def)
  have l1: "length ?r1 = 9" and l2: "length ?r2 = 9" by simp_all
  have m1: "unat (?r1 ! 8) \<noteq> sum_list (map unat (take 8 ?r1)) mod 256"
    and m2: "unat (?r2 ! 8) \<noteq> sum_list (map unat (take 8 ?r2)) mod 256"
    by simp_all
  show ?thesis
    using Exec_checksum_before_status
            [where cmd = 6 and typeNo = 0 and motorOrBank = 0 and val = 0, OF p1 w r l1]
      Exec_checksum_before_status
            [where cmd = 6 and typeNo = 0 and motorOrBank = 0 and val = 0, OF p2 w r l2] m1 m2
    by blast
qed

section \<open>The value returned\<close>

text \<open>
  C6. For every \<open>int32\<close> value \<open>v\<close>, a reply with status 100, the two's complement of
  \<open>v\<close> in bytes 4 to 7, most significant first, and a valid checksum makes \<open>Exec\<close> return
  \<open>(v, nil)\<close>. The witness runs it for -1, 0, the smallest and the largest \<open>int32\<close>.
\<close>

theorem Exec_value_roundtrip:
  assumes "port q = Some (rw, p)"
    and "Write rw [2, cmd, typeNo, motorOrBank,
                   ucast (drop_bit 24 val), ucast (drop_bit 16 val), ucast (drop_bit 8 val), ucast val,
                   calcChecksum [2, cmd, typeNo, motorOrBank,
                     ucast (drop_bit 24 val), ucast (drop_bit 16 val), ucast (drop_bit 8 val), ucast val]] p
           = (None, p1)"
    and "ReadFull rw 9 p1 = (Inr resp, p2)"
    and "resp = [a0, a1, 100, a3, b4, b5, b6, b7, ck]"
    and "uint b4 = (sint v div 2 ^ 24) mod 256"
    and "uint b5 = (sint v div 2 ^ 16) mod 256"
    and "uint b6 = (sint v div 2 ^ 8) mod 256"
    and "uint b7 = sint v mod 256"
    and "unat ck = (unat a0 + unat a1 + 100 + unat a3
                     + unat b4 + unat b5 + unat b6 + unat b7) mod 256"
  shows "fst (Exec q cmd typeNo motorOrBank val) = (v, None)"
proof -
  have b4: "b4 = ucast (drop_bit 24 v)"
    using assms(5) by (intro byte_eqI_uint) (simp add: uint_byte_of_int32)
  have b5: "b5 = ucast (drop_bit 16 v)"
    using assms(6) by (intro byte_eqI_uint) (simp add: uint_byte_of_int32)
  have b6: "b6 = ucast (drop_bit 8 v)"
    using assms(7) by (intro byte_eqI_uint) (simp add: uint_byte_of_int32)
  have b7: "b7 = ucast v"
    using assms(8) uint_byte_of_int32 [of 0 v] by (intro byte_eqI_uint) simp
  have val: "Uint32 resp 4 = v"
    by (simp add: assms(4) Uint32_def b4 b5 b6 b7 bytes_to_word)
  have ck: "resp ! 8 = calcChecksum (take 8 resp)"
    using assms(9) by (simp add: checksum_test_iff assms(4) add.assoc)
  have st: "\<not> resp ! 2 < 100"
    by (simp add: assms(4))
  show ?thesis
    using val ck st by (simp add: Exec_on_reply [OF assms(1-3)])
qed

theorem Exec_value_roundtrip_witness:
  "fst (Exec \<lparr>port = Some (cannedPort [2, 1, 100, 6, 255, 255, 255, 255, 105], ()),
              log = (NoopLogger :: unit Logger, ())\<rparr> 6 0 0 0) = (- 1, None)
   \<and> fst (Exec \<lparr>port = Some (cannedPort [2, 1, 100, 1, 0, 0, 0, 0, 104], ()),
              log = (NoopLogger :: unit Logger, ())\<rparr> 6 0 0 0) = (0, None)
   \<and> fst (Exec \<lparr>port = Some (cannedPort [2, 1, 100, 6, 128, 0, 0, 0, 237], ()),
              log = (NoopLogger :: unit Logger, ())\<rparr> 6 0 0 0) = (word_of_int (- 2147483648), None)
   \<and> fst (Exec \<lparr>port = Some (cannedPort [2, 1, 100, 6, 127, 255, 255, 255, 233], ()),
              log = (NoopLogger :: unit Logger, ())\<rparr> 6 0 0 0) = (word_of_int 2147483647, None)
   \<and> sint (word_of_int (- 2147483648) :: int32) = - 2147483648
   \<and> sint (word_of_int 2147483647 :: int32) = 2147483647"
proof -
  have w: "\<And>r bs. Write (cannedPort r) bs () = (None, ())"
    by (simp add: cannedPort_def)
  have r: "\<And>r. ReadFull (cannedPort r) 9 () = (Inr r, ())"
    by (simp add: cannedPort_def)
  have p: "\<And>r. port \<lparr>port = Some (cannedPort r, ()), log = (NoopLogger :: unit Logger, ())\<rparr>
             = Some (cannedPort r, ())"
    by simp
  have m1: "fst (Exec \<lparr>port = Some (cannedPort [2, 1, 100, 6, 255, 255, 255, 255, 105], ()),
              log = (NoopLogger :: unit Logger, ())\<rparr> 6 0 0 0) = (- 1, None)"
    by (rule Exec_value_roundtrip [OF p w r refl]) simp_all
  have z: "fst (Exec \<lparr>port = Some (cannedPort [2, 1, 100, 1, 0, 0, 0, 0, 104], ()),
              log = (NoopLogger :: unit Logger, ())\<rparr> 6 0 0 0) = (0, None)"
    by (rule Exec_value_roundtrip [OF p w r refl]) simp_all
  have mn: "fst (Exec \<lparr>port = Some (cannedPort [2, 1, 100, 6, 128, 0, 0, 0, 237], ()),
              log = (NoopLogger :: unit Logger, ())\<rparr> 6 0 0 0) = (word_of_int (- 2147483648), None)"
    by (rule Exec_value_roundtrip [OF p w r refl]) (simp_all add: sint_word_ariths)
  have mx: "fst (Exec \<lparr>port = Some (cannedPort [2, 1, 100, 6, 127, 255, 255, 255, 233], ()),
              log = (NoopLogger :: unit Logger, ())\<rparr> 6 0 0 0) = (word_of_int 2147483647, None)"
    by (rule Exec_value_roundtrip [OF p w r refl]) simp_all
  from m1 z mn mx show ?thesis by simp
qed

section \<open>Errors\<close>

text \<open>
  C7. With no transport attached (\<open>port q = None\<close>) \<open>Exec\<close> returns
  \<open>(0, "port not open")\<close> for every input and gives back the object as it was: there is
  no stream in it that a write or a read could have touched. The next call, with any
  arguments, therefore fails in the same way.
\<close>

theorem Exec_not_connected:
  assumes "port q = None"
  shows "Exec q cmd typeNo motorOrBank val = ((0, Some errorPortNotOpen), q)
       \<and> Exec (snd (Exec q cmd typeNo motorOrBank val)) cmd' typeNo' motorOrBank' val'
           = ((0, Some errorPortNotOpen), q)"
  using assms by (simp add: Exec_def)

theorem Exec_not_connected_witness:
  "Exec \<lparr>port = None :: ((unit, unit) ReadWriter \<times> unit) option, log = (NoopLogger, ())\<rparr> 1 0 1 500
     = ((0, Some errorPortNotOpen), \<lparr>port = None, log = (NoopLogger, ())\<rparr>)
   \<and> Exec (snd (Exec \<lparr>port = None  :: ((unit, unit) ReadWriter \<times> unit) option, log = (NoopLogger, ())\<rparr> 1 0 1 500)) 3 0 1 0
     = ((0, Some errorPortNotOpen), \<lparr>port = None, log = (NoopLogger, ())\<rparr>)"
proof -
  have h: "port \<lparr>port = None :: ((unit, unit) ReadWriter \<times> unit) option,
                   log = (NoopLogger :: unit Logger, ())\<rparr> = None"
    by simp
  show ?thesis by (rule Exec_not_connected [OF h])
qed

text \<open>
  C8. Whenever \<open>Exec\<close> returns an error (port not open, a failed write, a failed or short
  read, a checksum mismatch, a status below 100), the \<open>int32\<close> beside it is 0. The witness
  is a reply with status 5 and the value field 500.
\<close>

theorem Exec_error_value_zero:
  "snd (fst (Exec q cmd typeNo motorOrBank val)) \<noteq> None
     \<Longrightarrow> fst (fst (Exec q cmd typeNo motorOrBank val)) = 0"
  by (simp add: Exec_def Let_def split: option.splits prod.splits sum.splits if_splits)

theorem Exec_error_value_zero_witness:
  "snd (fst (Exec \<lparr>port = Some (cannedPort [2, 1, 5, 9, 0, 0, 1, 244, 0x06], ()), log = (NoopLogger, ())\<rparr> 9 0 2 500))
      = Some errorConfigurationEEPROMLocked
   \<and> fst (fst (Exec \<lparr>port = Some (cannedPort [2, 1, 5, 9, 0, 0, 1, 244, 0x06], ()), log = (NoopLogger, ())\<rparr> 9 0 2 500)) = 0"
  using Exec_error_value_zero [of "\<lparr>port = Some (cannedPort [2, 1, 5, 9, 0, 0, 1, 244, 0x06], ()), log = (NoopLogger :: unit Logger, ())\<rparr>" 9 0 2 500]
  by (simp add: Exec_def Let_def cannedPort_def calcChecksum_def PutUint32_def getError_def)

text \<open>
  C10. A reply with a valid checksum and status 1 makes \<open>Exec\<close> return
  \<open>(0, errorWrongChecksum)\<close>, the very result it returns for any reply whose own checksum
  is wrong: the caller gets the same error value in both cases.
\<close>

theorem Exec_status_1_is_wrong_checksum:
  assumes "port q = Some (rw, p)"
    and "Write rw [2, cmd, typeNo, motorOrBank,
                   ucast (drop_bit 24 val), ucast (drop_bit 16 val), ucast (drop_bit 8 val), ucast val,
                   calcChecksum [2, cmd, typeNo, motorOrBank,
                     ucast (drop_bit 24 val), ucast (drop_bit 16 val), ucast (drop_bit 8 val), ucast val]] p
           = (None, p1)"
    and "ReadFull rw 9 p1 = (Inr resp, p2)"
    and "length resp = 9"
    and "unat (resp ! 8) = sum_list (map unat (take 8 resp)) mod 256"
    and "resp ! 2 = 1"
    and "port q' = Some (rw', p')"
    and "Write rw' [2, cmd', typeNo', motorOrBank',
                   ucast (drop_bit 24 val'), ucast (drop_bit 16 val'), ucast (drop_bit 8 val'), ucast val',
                   calcChecksum [2, cmd', typeNo', motorOrBank',
                     ucast (drop_bit 24 val'), ucast (drop_bit 16 val'), ucast (drop_bit 8 val'), ucast val']] p'
           = (None, p1')"
    and "ReadFull rw' 9 p1' = (Inr resp', p2')"
    and "length resp' = 9"
    and "unat (resp' ! 8) \<noteq> sum_list (map unat (take 8 resp')) mod 256"
  shows "fst (Exec q cmd typeNo motorOrBank val) = (0, Some errorWrongChecksum)
       \<and> fst (Exec q' cmd' typeNo' motorOrBank' val') = fst (Exec q cmd typeNo motorOrBank val)"
proof -
  have a: "fst (Exec q cmd typeNo motorOrBank val) = (0, Some errorWrongChecksum)"
    using assms(5,6)
    by (simp add: Exec_on_reply [OF assms(1-3)] checksum_test_iff getError_def)
  have b: "fst (Exec q' cmd' typeNo' motorOrBank' val') = (0, Some errorWrongChecksum)"
    using assms(11)
    by (simp add: Exec_on_reply [OF assms(7-9)] checksum_test_iff)
  from a b show ?thesis by simp
qed

theorem Exec_status_1_is_wrong_checksum_witness:
  "fst (Exec \<lparr>port = Some (cannedPort [2, 1, 1, 6, 0, 0, 0, 0, 10], ()),
              log = (NoopLogger :: unit Logger, ())\<rparr> 6 0 0 0) = (0, Some errorWrongChecksum)
   \<and> fst (Exec \<lparr>port = Some (cannedPort [2, 1, 100, 6, 0, 0, 0, 0, 0], ()),
              log = (NoopLogger :: unit Logger, ())\<rparr> 6 0 0 0)
     = fst (Exec \<lparr>port = Some (cannedPort [2, 1, 1, 6, 0, 0, 0, 0, 10], ()),
              log = (NoopLogger :: unit Logger, ())\<rparr> 6 0 0 0)"
proof -
  let ?r1 = "[2, 1, 1, 6, 0, 0, 0, 0, 10] :: byte list"
  let ?r2 = "[2, 1, 100, 6, 0, 0, 0, 0, 0] :: byte list"
  let ?q1 = "\<lparr>port = Some (cannedPort ?r1, ()), log = (NoopLogger :: unit Logger, ())\<rparr>"
  let ?q2 = "\<lparr>port = Some (cannedPort ?r2, ()), log = (NoopLogger :: unit Logger, ())\<rparr>"
  have p1: "port ?q1 = Some (cannedPort ?r1, ())" and p2: "port ?q2 = Some (cannedPort ?r2, ())"
    by simp_all
  have w: "\<And>r bs. Write (cannedPort r) bs () = (None, ())"
    by (simp add: cannedPort_def)
  have r: "\<And>r. ReadFull (cannedPort r) 9 () = (Inr r, ())"
    by (simp add: cannedPort_def)
  have l1: "length ?r1 = 9" and l2: "length ?r2 = 9" by simp_all
  have v1: "unat (?r1 ! 8) = sum_list (map unat (take 8 ?r1)) mod 256" by simp
  have s1: "?r1 ! 2 = 1" by simp
  have m2: "unat (?r2 ! 8) \<noteq> sum_list (map unat (take 8 ?r2)) mod 256" by simp
  show ?thesis
    by (rule Exec_status_1_is_wrong_checksum [OF p1 w r l1 v1 s1 p2 w r l2 m2])
qed

end
